theory Spec2Isabelle
  imports Main "HOL-Library.AList" "HOL-Library.Char_ord" "HOL-Library.List_Lexorder"
begin

section \<open>Data model (types.ts)\<close>

text \<open>
  JavaScript strings are modelled as Isabelle strings. A literal of the source that is not
  ASCII is written as the bytes of its UTF-8 encoding. The order \<open><\<close> on strings is the
  lexicographic order on character codes (the list order of \<open>List_Lexorder\<close> over the
  character order of \<open>Char_ord\<close>), as JavaScript's \<^verbatim>\<open><\<close> on two strings is.

  Field names carry the initial of their interface (\<open>r_\<close>, \<open>c_\<close>, \<open>p_\<close>, \<open>s_\<close>, \<open>l_\<close>),
  since several interfaces of the source share field names and some names (\<^verbatim>\<open>id\<close>,
  \<^verbatim>\<open>notes\<close>, \<^verbatim>\<open>value\<close>) are taken in Isabelle.
\<close>

text \<open>
  A related person. Objects of this interface come from \<^verbatim>\<open>JSON.parse\<close> and are stored as
  they come, and the response schemas of the requests require neither of the two fields.
  An entry without \<^verbatim>\<open>relationship\<close> changes what the program does (calling
  \<^verbatim>\<open>toLowerCase\<close> on it throws), so the field is optional here; \<^verbatim>\<open>name\<close> is only compared
  and copied, and is taken to be there, as the interface declares it.
\<close>

record RelatedPerson =
  r_name :: string
  r_relationship :: "string option"

record Contact =
  c_id :: string
  c_name :: string
  c_title :: string
  c_company :: string
  c_email :: "string option"
  c_phone :: "string option"
  c_location :: "string option"
  c_tags :: "string list"
  c_summary :: string
  c_notes :: string
  c_relatedPeople :: "RelatedPerson list"
  c_avatarUrl :: "string option"

text \<open>
  \<^verbatim>\<open>Partial<Contact>\<close>: every field may be absent. It is the type the source gives to what
  the extraction service parses, and the shape of every object that \<^verbatim>\<open>JSON.parse\<close> hands to
  the merge and enrichment services (the request's response schema lists these fields, none
  of them required). The object that a spread over such a value builds has this type too.
  Fields outside the interface and the value \<^verbatim>\<open>null\<close> are not modelled.
\<close>

record PartialContact =
  p_id :: "string option"
  p_name :: "string option"
  p_title :: "string option"
  p_company :: "string option"
  p_email :: "string option"
  p_phone :: "string option"
  p_location :: "string option"
  p_tags :: "string list option"
  p_summary :: "string option"
  p_notes :: "string option"
  p_relatedPeople :: "RelatedPerson list option"
  p_avatarUrl :: "string option"

text \<open>A \<^typ>\<open>Contact\<close> read as an object whose fields may be absent.\<close>

definition asPartial :: "Contact \<Rightarrow> PartialContact" where
  "asPartial c =
     \<lparr> p_id = Some (c_id c), p_name = Some (c_name c), p_title = Some (c_title c),
       p_company = Some (c_company c), p_email = c_email c, p_phone = c_phone c,
       p_location = c_location c, p_tags = Some (c_tags c), p_summary = Some (c_summary c),
       p_notes = Some (c_notes c), p_relatedPeople = Some (c_relatedPeople c),
       p_avatarUrl = c_avatarUrl c \<rparr>"

section \<open>The external oracle and the errors of the services\<close>

text \<open>
  \<^verbatim>\<open>ai.models.generateContent\<close> is an external service. One call either throws or answers
  with a response. What the call answers is an input of the model; the prompt is not
  modelled, since nothing in the program reads it back. For the merge and the enrichment
  the part of the response that is read is \<^verbatim>\<open>response.text\<close>, which may be undefined.
  \<^verbatim>\<open>JSON.parse\<close> is a parameter \<open>parse\<close> of every function that calls it: \<open>None\<close> stands for
  the \<^verbatim>\<open>SyntaxError\<close> it throws, and a parsed value is given by the fields of the
  \<^verbatim>\<open>Contact\<close> interface that a spread of it has (none, for a value that is not an object).
\<close>

datatype error = OracleCallError | NoContactsToMerge | InvalidURL | TypeError

datatype 'r oracle_outcome = OracleThrows | Responds 'r

type_synonym json_parse = "string \<Rightarrow> PartialContact option"

text \<open>\<^verbatim>\<open>response.text || "{}"\<close>: an undefined or empty text is replaced.\<close>

definition textOrEmptyObject :: "string option \<Rightarrow> string" where
  "textOrEmptyObject t = (case t of None \<Rightarrow> ''{}'' | Some s \<Rightarrow> (if s = [] then ''{}'' else s))"

section \<open>String helpers of JavaScript\<close>

text \<open>\<^verbatim>\<open>Array.prototype.join\<close> on an array of strings.\<close>

fun join :: "string \<Rightarrow> string list \<Rightarrow> string" where
  "join sep [] = []"
| "join sep [x] = x"
| "join sep (x # y # ys) = x @ sep @ join sep (y # ys)"

text \<open>
  The test that \<open>pat\<close> is a prefix of \<open>s\<close>, which the next functions share, and
  \<^verbatim>\<open>s.includes(pat)\<close>.
\<close>

definition startsWith :: "string \<Rightarrow> string \<Rightarrow> bool" where
  "startsWith s pat = (take (length pat) s = pat)"

fun includes_str :: "string \<Rightarrow> string \<Rightarrow> bool" where
  "includes_str [] pat = (pat = [])"
| "includes_str (c # cs) pat = (startsWith (c # cs) pat \<or> includes_str cs pat)"

text \<open>
  \<^verbatim>\<open>s.replace(/pat/g, '')\<close> for a literal, non-empty pattern: one pass from the left, the
  matches do not overlap, and what the removal joins is not scanned again. The counter
  is the number of characters of the current match still to be skipped.
\<close>

fun removeAllFrom :: "string \<Rightarrow> nat \<Rightarrow> string \<Rightarrow> string" where
  "removeAllFrom pat k [] = []"
| "removeAllFrom pat (Suc k) (c # cs) = removeAllFrom pat k cs"
| "removeAllFrom pat 0 (c # cs) =
     (if pat \<noteq> [] \<and> startsWith (c # cs) pat then removeAllFrom pat (length pat - 1) cs
      else c # removeAllFrom pat 0 cs)"

definition removeAll :: "string \<Rightarrow> string \<Rightarrow> string" where
  "removeAll pat s = removeAllFrom pat 0 s"

text \<open>
  The white space that \<^verbatim>\<open>String.prototype.trim\<close> removes, each character as its UTF-8
  bytes: tab, line feed, vertical tab, form feed, carriage return, space, U+00A0, U+1680,
  U+2000 to U+200A, U+2028, U+2029, U+202F, U+205F, U+3000 and U+FEFF.
\<close>

definition whiteSpace :: "string list" where
  "whiteSpace =
     [[CHR 0x09], [CHR 0x0A], [CHR 0x0B], [CHR 0x0C], [CHR 0x0D], [CHR 0x20],
      [CHR 0xC2, CHR 0xA0], [CHR 0xE1, CHR 0x9A, CHR 0x80],
      [CHR 0xE2, CHR 0x80, CHR 0x80], [CHR 0xE2, CHR 0x80, CHR 0x81],
      [CHR 0xE2, CHR 0x80, CHR 0x82], [CHR 0xE2, CHR 0x80, CHR 0x83],
      [CHR 0xE2, CHR 0x80, CHR 0x84], [CHR 0xE2, CHR 0x80, CHR 0x85],
      [CHR 0xE2, CHR 0x80, CHR 0x86], [CHR 0xE2, CHR 0x80, CHR 0x87],
      [CHR 0xE2, CHR 0x80, CHR 0x88], [CHR 0xE2, CHR 0x80, CHR 0x89],
      [CHR 0xE2, CHR 0x80, CHR 0x8A], [CHR 0xE2, CHR 0x80, CHR 0xA8],
      [CHR 0xE2, CHR 0x80, CHR 0xA9], [CHR 0xE2, CHR 0x80, CHR 0xAF],
      [CHR 0xE2, CHR 0x81, CHR 0x9F], [CHR 0xE3, CHR 0x80, CHR 0x80],
      [CHR 0xEF, CHR 0xBB, CHR 0xBF]]"

text \<open>
  Dropping the white space at the front of a string; \<open>ws\<close> is the list of encodings, and
  the counter is the number of bytes of the current white-space character still to be
  dropped.
\<close>

fun dropSpaces :: "string list \<Rightarrow> nat \<Rightarrow> string \<Rightarrow> string" where
  "dropSpaces ws k [] = []"
| "dropSpaces ws (Suc k) (c # cs) = dropSpaces ws k cs"
| "dropSpaces ws 0 (c # cs) =
     (case find (\<lambda>w. w \<noteq> [] \<and> startsWith (c # cs) w) ws of
        Some w \<Rightarrow> dropSpaces ws (length w - 1) cs
      | None \<Rightarrow> c # cs)"

definition trim :: "string \<Rightarrow> string" where
  "trim s = rev (dropSpaces (map rev whiteSpace) 0 (rev (dropSpaces whiteSpace 0 s)))"

text \<open>
  \<^verbatim>\<open>String.prototype.toLowerCase\<close> on the letters A to Z; the bytes of every other
  character are left as they are.
\<close>

definition toLowerCase :: "string \<Rightarrow> string" where
  "toLowerCase s =
     map (\<lambda>c. if CHR ''A'' \<le> c \<and> c \<le> CHR ''Z'' then char_of (of_char c + (32::nat)) else c) s"

section \<open>Multi-profile merge (geminiService: mergeContactsSmartly)\<close>

definition notesSeparator :: string where
  "notesSeparator = [CHR 0x0A, CHR 0x0A]"

text \<open>
  \<^verbatim>\<open>{ ...mergedData, id: targetId, notes: contacts.map(c => c.notes).join('\n\n') }\<close>
\<close>

definition mergedObject :: "PartialContact \<Rightarrow> string \<Rightarrow> Contact list \<Rightarrow> PartialContact" where
  "mergedObject mergedData targetId contacts =
     mergedData \<lparr> p_id := Some targetId,
                  p_notes := Some (join notesSeparator (map c_notes contacts)) \<rparr>"

text \<open>
  The call of the oracle is awaited before the \<^verbatim>\<open>try\<close> block, so an oracle that throws
  rejects the promise of the whole function; only \<^verbatim>\<open>JSON.parse\<close> is inside the \<^verbatim>\<open>try\<close>.
\<close>

fun mergeContactsSmartly ::
  "json_parse \<Rightarrow> Contact list \<Rightarrow> string option oracle_outcome \<Rightarrow> error + PartialContact" where
  "mergeContactsSmartly parse [] outcome = Inl NoContactsToMerge"
| "mergeContactsSmartly parse [c] outcome = Inr (asPartial c)"
| "mergeContactsSmartly parse (c # d # cs) OracleThrows = Inl OracleCallError"
| "mergeContactsSmartly parse (c # d # cs) (Responds text) =
     (let targetId = c_id c;
          jsonStr = textOrEmptyObject text
      in case parse jsonStr of
           Some mergedData \<Rightarrow> Inr (mergedObject mergedData targetId (c # d # cs))
         | None \<Rightarrow> Inr (asPartial c))"

section \<open>Enrichment of one profile (geminiService: enrichContactProfile)\<close>

text \<open>
  \<^verbatim>\<open>{ ...currentContact, ...updates }\<close>: a field of \<open>updates\<close> that is present overwrites,
  an absent one leaves the field of the current contact.
\<close>

definition overwrite :: "'a \<Rightarrow> 'a option \<Rightarrow> 'a" where
  "overwrite old new = (case new of Some v \<Rightarrow> v | None \<Rightarrow> old)"

definition overwriteOpt :: "'a option \<Rightarrow> 'a option \<Rightarrow> 'a option" where
  "overwriteOpt old new = (case new of Some v \<Rightarrow> Some v | None \<Rightarrow> old)"

definition applyUpdates :: "Contact \<Rightarrow> PartialContact \<Rightarrow> Contact" where
  "applyUpdates currentContact updates =
     \<lparr> c_id = overwrite (c_id currentContact) (p_id updates),
       c_name = overwrite (c_name currentContact) (p_name updates),
       c_title = overwrite (c_title currentContact) (p_title updates),
       c_company = overwrite (c_company currentContact) (p_company updates),
       c_email = overwriteOpt (c_email currentContact) (p_email updates),
       c_phone = overwriteOpt (c_phone currentContact) (p_phone updates),
       c_location = overwriteOpt (c_location currentContact) (p_location updates),
       c_tags = overwrite (c_tags currentContact) (p_tags updates),
       c_summary = overwrite (c_summary currentContact) (p_summary updates),
       c_notes = overwrite (c_notes currentContact) (p_notes updates),
       c_relatedPeople = overwrite (c_relatedPeople currentContact) (p_relatedPeople updates),
       c_avatarUrl = overwriteOpt (c_avatarUrl currentContact) (p_avatarUrl updates) \<rparr>"

text \<open>
  \<^verbatim>\<open>jsonStr.replace(/```json/g, '').replace(/```/g, '').trim()\<close>
\<close>

definition stripCodeFences :: "string \<Rightarrow> string" where
  "stripCodeFences jsonStr = trim (removeAll ''```'' (removeAll ''```json'' jsonStr))"

text \<open>
  As in the merge, the oracle is called before the \<^verbatim>\<open>try\<close> block. Inside it, a parse
  failure is caught and the current contact is returned (the source's comment:
  ``Fallback: return original if parsing fails'').
\<close>

definition enrichContactProfile ::
  "json_parse \<Rightarrow> Contact \<Rightarrow> string option oracle_outcome \<Rightarrow> error + Contact" where
  "enrichContactProfile parse currentContact outcome =
     (case outcome of
        OracleThrows \<Rightarrow> Inl OracleCallError
      | Responds text \<Rightarrow>
          (let jsonStr = stripCodeFences (textOrEmptyObject text)
           in case parse jsonStr of
                Some updates \<Rightarrow> Inr (applyUpdates currentContact updates)
              | None \<Rightarrow> Inr currentContact))"

section \<open>Search grounding (geminiService: searchPersonInfo)\<close>

record SearchResult =
  s_title :: string
  s_snippet :: string
  s_url :: "string option"
  s_source :: string

text \<open>
  A grounding chunk of the response: \<^verbatim>\<open>chunk.web\<close> may be undefined, and so may its
  \<^verbatim>\<open>uri\<close> and \<^verbatim>\<open>title\<close>.
\<close>

record WebRef =
  uri :: "string option"
  w_title :: "string option"

record GroundingChunk =
  web :: "WebRef option"

text \<open>
  What the search reads of a response: \<^verbatim>\<open>response.text\<close> and
  \<^verbatim>\<open>response.candidates?.[0]?.groundingMetadata?.groundingChunks\<close>, the latter undefined when
  any link of the optional chain is.
\<close>

record SearchResponse =
  resp_text :: "string option"
  groundingChunks :: "GroundingChunk list option"

text \<open>\<^verbatim>\<open>chunk.web?.uri\<close>, and the test \<^verbatim>\<open>.filter(chunk => chunk.web?.uri)\<close> for a non-empty one.\<close>

definition chunkUri :: "GroundingChunk \<Rightarrow> string option" where
  "chunkUri chunk = (case web chunk of None \<Rightarrow> None | Some w \<Rightarrow> uri w)"

definition hasUri :: "GroundingChunk \<Rightarrow> bool" where
  "hasUri chunk = (case chunkUri chunk of None \<Rightarrow> False | Some u \<Rightarrow> u \<noteq> [])"

text \<open>\<^verbatim>\<open>chunk.web?.title || "Web Source"\<close>\<close>

definition chunkTitle :: "GroundingChunk \<Rightarrow> string" where
  "chunkTitle chunk =
     (case web chunk of
        None \<Rightarrow> ''Web Source''
      | Some w \<Rightarrow> (case w_title w of
                    None \<Rightarrow> ''Web Source''
                  | Some t \<Rightarrow> (if t = [] then ''Web Source'' else t)))"

text \<open>
  The \<^verbatim>\<open>.map\<close> over the chunks that have a uri. \<^verbatim>\<open>new URL(uri).hostname\<close> is the parameter
  \<open>hostname\<close>; \<open>None\<close> stands for the \<^verbatim>\<open>TypeError\<close> of an invalid URL, which ends the map
  and the whole search.
\<close>

fun toSearchResults ::
  "(string \<Rightarrow> string option) \<Rightarrow> GroundingChunk list \<Rightarrow> error + SearchResult list" where
  "toSearchResults hostname [] = Inr []"
| "toSearchResults hostname (chunk # chunks) =
     (case hostname (case chunkUri chunk of None \<Rightarrow> [] | Some u \<Rightarrow> u) of
        None \<Rightarrow> Inl InvalidURL
      | Some h \<Rightarrow>
          (case toSearchResults hostname chunks of
             Inl e \<Rightarrow> Inl e
           | Inr rest \<Rightarrow>
               Inr (\<lparr> s_title = chunkTitle chunk, s_snippet = ''Click to visit source'',
                      s_url = chunkUri chunk, s_source = h \<rparr> # rest)))"

text \<open>
  A JavaScript \<^verbatim>\<open>Map\<close> built from a list of entries, as the list of its entries in
  iteration order: setting a key that is present replaces the value in place, a new key
  goes to the end (\<^const>\<open>AList.update\<close>).
\<close>

definition newMap :: "('k \<times> 'v) list \<Rightarrow> ('k \<times> 'v) list" where
  "newMap entries = foldl (\<lambda>m (k, v). AList.update k v m) [] entries"

text \<open>
  \<^verbatim>\<open>Array.from(new Map(sources.map(item => [item.url, item])).values())\<close>
\<close>

definition uniqueSources :: "SearchResult list \<Rightarrow> SearchResult list" where
  "uniqueSources sources = map snd (newMap (map (\<lambda>item. (s_url item, item)) sources))"

definition searchPersonInfo ::
  "(string \<Rightarrow> string option) \<Rightarrow> SearchResponse oracle_outcome
     \<Rightarrow> error + (string \<times> SearchResult list)" where
  "searchPersonInfo hostname outcome =
     (case outcome of
        OracleThrows \<Rightarrow> Inl OracleCallError
      | Responds response \<Rightarrow>
          (let text = (case resp_text response of None \<Rightarrow> [] | Some t \<Rightarrow> t);
               chunks = (case groundingChunks response of None \<Rightarrow> [] | Some cs \<Rightarrow> cs)
           in case toSearchResults hostname (filter hasUri chunks) of
                Inl e \<Rightarrow> Inl e
              | Inr sources \<Rightarrow> Inr (text, uniqueSources sources)))"

section \<open>Relationship graph (NetworkGraph: the links of the effect)\<close>

record Link =
  l_source :: string
  l_target :: string
  l_value :: nat
  l_type :: "string option"

text \<open>\<^verbatim>\<open>new Map(contacts.map(c => [c.name, c.id]))\<close> and \<^verbatim>\<open>contactMap.get(name)\<close>.\<close>

definition contactMap :: "Contact list \<Rightarrow> (string \<times> string) list" where
  "contactMap contacts = newMap (map (\<lambda>c. (c_name c, c_id c)) contacts)"

text \<open>
  The links of one \<open>source\<close> by its \<^verbatim>\<open>relatedPeople\<close>: a name that the map does not have,
  or that it maps to the empty id, gives no link. The type of a link is the relationship
  of the entry, as it is (undefined when the entry has none).
\<close>

definition explicitLinks :: "Contact list \<Rightarrow> Contact \<Rightarrow> Link list" where
  "explicitLinks contacts source =
     concat (map (\<lambda>rel.
        case map_of (contactMap contacts) (r_name rel) of
          None \<Rightarrow> []
        | Some targetId \<Rightarrow>
            (if targetId \<noteq> []
             then [\<lparr> l_source = c_id source, l_target = targetId, l_value = 2,
                     l_type = r_relationship rel \<rparr>]
             else []))
       (c_relatedPeople source))"

text \<open>The links of one \<open>source\<close> by its company.\<close>

definition implicitLinks :: "Contact list \<Rightarrow> Contact \<Rightarrow> Link list" where
  "implicitLinks contacts source =
     (if c_company source \<noteq> []
      then concat (map (\<lambda>target.
             if c_id source \<noteq> c_id target \<and> c_company source = c_company target
             then (if c_id source < c_id target
                   then [\<lparr> l_source = c_id source, l_target = c_id target, l_value = 1,
                           l_type = Some ''Colleague'' \<rparr>]
                   else [])
             else [])
           contacts)
      else [])"

text \<open>
  The array \<^verbatim>\<open>links\<close> after the \<^verbatim>\<open>forEach\<close> over the contacts (for an empty list the
  effect returns before it builds anything).
\<close>

definition graphLinks :: "Contact list \<Rightarrow> Link list" where
  "graphLinks contacts =
     concat (map (\<lambda>source. explicitLinks contacts source @ implicitLinks contacts source)
               contacts)"

section \<open>The application state and its handlers (App.tsx)\<close>

datatype EnrichMode = WEB | MANUAL

text \<open>
  The three messages that \<^verbatim>\<open>handleEnrich\<close> shows with \<^verbatim>\<open>alert\<close>: the profile was enriched
  and so many new contacts were discovered, the profile was updated, the update failed.
\<close>

datatype alert =
    EnrichedWithDiscoveries nat
  | ProfileUpdated
  | UpdateFailed

text \<open>
  The part of the component's state that the two handlers read or write; \<open>alerts\<close> is the
  list of the messages shown so far.
\<close>

record AppState =
  contacts :: "Contact list"
  selectedContactId :: "string option"
  enrichMode :: EnrichMode
  isSearching :: bool
  searchResults :: "(string \<times> SearchResult list) option"
  ignoredSourceUrls :: "string set"
  manualText :: string
  manualImages :: "string list"
  showRelModal :: bool
  relTargetId :: string
  relType :: string
  alerts :: "alert list"

text \<open>\<^verbatim>\<open>contacts.find(c => c.id === selectedContactId)\<close>\<close>

definition selectedContact :: "AppState \<Rightarrow> Contact option" where
  "selectedContact st =
     (case selectedContactId st of
        None \<Rightarrow> None
      | Some i \<Rightarrow> find (\<lambda>c. c_id c = i) (contacts st))"

subsection \<open>handleEnrich\<close>

definition orgTitle :: string where
  "orgTitle = [CHR 0xE7, CHR 0xBB, CHR 0x84, CHR 0xE7, CHR 0xBB, CHR 0x87,
               CHR 0xE6, CHR 0x9C, CHR 0xBA, CHR 0xE6, CHR 0x9E, CHR 0x84]"

definition discoveredTag :: string where
  "discoveredTag = [CHR 0x41, CHR 0x49, CHR 0xE5, CHR 0x8F, CHR 0x91, CHR 0xE7, CHR 0x8E, CHR 0xB0]"

definition summaryPrefix :: string where
  "summaryPrefix = [CHR 0xE7, CHR 0xB3, CHR 0xBB, CHR 0xE7, CHR 0xBB, CHR 0x9F, CHR 0xE6, CHR 0xA0,
                    CHR 0xB9, CHR 0xE6, CHR 0x8D, CHR 0xAE, CHR 0x20]"

definition summaryInfix :: string where
  "summaryInfix = [CHR 0x20, CHR 0xE7, CHR 0x9A, CHR 0x84, CHR 0xE8, CHR 0xB5, CHR 0x84, CHR 0xE6,
                   CHR 0x96, CHR 0x99, CHR 0xE8, CHR 0x87, CHR 0xAA, CHR 0xE5, CHR 0x8A, CHR 0xA8,
                   CHR 0xE5, CHR 0x8F, CHR 0x91, CHR 0xE7, CHR 0x8E, CHR 0xB0, CHR 0xE7, CHR 0x9A,
                   CHR 0x84, CHR 0xE4, CHR 0xBA, CHR 0xBA, CHR 0xE8, CHR 0x84, CHR 0x89, CHR 0xE5,
                   CHR 0x85, CHR 0xB3, CHR 0xE8, CHR 0x81, CHR 0x94, CHR 0xEF, CHR 0xBC, CHR 0x9A]"

text \<open>
  \<^verbatim>\<open>rel.relationship.toLowerCase().includes('organization') || ...includes('company')\<close>, for
  a relationship that is there.
\<close>

definition isOrg :: "string \<Rightarrow> bool" where
  "isOrg label =
     (includes_str (toLowerCase label) ''organization''
      \<or> includes_str (toLowerCase label) ''company'')"

text \<open>
  The contact pushed for a related person that is new; \<open>label\<close> is its relationship.
  \<open>fresh\<close> is what \<^verbatim>\<open>`${Date.now()}-${Math.random().toString(36).substr(2, 9)}`\<close> evaluates
  to at this push.
\<close>

definition autoContact :: "string \<Rightarrow> Contact \<Rightarrow> RelatedPerson \<Rightarrow> string \<Rightarrow> Contact" where
  "autoContact fresh enriched rel label =
     \<lparr> c_id = ''auto-'' @ fresh,
       c_name = r_name rel,
       c_title = (if isOrg label then orgTitle else label),
       c_company = (if isOrg label then r_name rel else []),
       c_email = None,
       c_phone = None,
       c_location = Some [],
       c_tags = [discoveredTag, if isOrg label then ''Organization'' else ''Person''],
       c_summary = summaryPrefix @ c_name enriched @ summaryInfix @ label,
       c_notes = [],
       c_relatedPeople =
         [\<lparr> r_name = c_name enriched, r_relationship = Some ''Origin Connection'' \<rparr>],
       c_avatarUrl = Some [] \<rparr>"

text \<open>
  The \<^verbatim>\<open>forEach\<close> over \<^verbatim>\<open>enriched.relatedPeople\<close>, with the two variables it updates: the
  set \<open>existingNames\<close> and the array \<open>newAutoContacts\<close>. \<open>freshIds k\<close> is the fresh part of
  the id of the push number \<open>k\<close> of the call. For an entry of a new name the first thing
  evaluated is \<^verbatim>\<open>rel.relationship.toLowerCase()\<close>: without a relationship it throws a
  \<^verbatim>\<open>TypeError\<close>, which ends the loop. An entry whose name is known is skipped before its
  relationship is read.
\<close>

fun discover ::
  "(nat \<Rightarrow> string) \<Rightarrow> Contact \<Rightarrow> string set \<Rightarrow> Contact list \<Rightarrow> RelatedPerson list
     \<Rightarrow> error + Contact list" where
  "discover freshIds enriched existingNames newAutoContacts [] = Inr newAutoContacts"
| "discover freshIds enriched existingNames newAutoContacts (rel # rels) =
     (if r_name rel \<notin> existingNames
      then (case r_relationship rel of
              None \<Rightarrow> Inl TypeError
            | Some label \<Rightarrow>
                discover freshIds enriched (insert (r_name rel) existingNames)
                  (newAutoContacts
                     @ [autoContact (freshIds (length newAutoContacts)) enriched rel label])
                  rels)
      else discover freshIds enriched existingNames newAutoContacts rels)"

text \<open>
  The handler. Without a selected contact it returns at once. Everything else is inside
  one \<^verbatim>\<open>try\<close>: an error thrown by the enrichment service or by the discovery loop is
  caught, the failure is shown and nothing else changes, since \<^verbatim>\<open>setContacts\<close> is not
  reached. Otherwise the enriched contact replaces every contact of its id, the new
  contacts are appended, the enrichment inputs are reset and a success message is shown.
  The payload that the handler builds from the enrichment inputs goes into the prompt
  only, so it is part of what the oracle answers to; the state is taken not to change
  while the answer is awaited, so that \<^verbatim>\<open>prev\<close> in \<^verbatim>\<open>setContacts\<close> is \<^verbatim>\<open>contacts\<close>. The title,
  the summary and the tag of a discovered contact are Chinese literals of the source,
  given here by their bytes.
\<close>

definition enrichFailed :: "AppState \<Rightarrow> AppState" where
  "enrichFailed st = st \<lparr> isSearching := False, alerts := alerts st @ [UpdateFailed] \<rparr>"

definition handleEnrich ::
  "(nat \<Rightarrow> string) \<Rightarrow> json_parse \<Rightarrow> string option oracle_outcome \<Rightarrow> AppState \<Rightarrow> AppState" where
  "handleEnrich freshIds parse outcome st =
     (case selectedContact st of
        None \<Rightarrow> st
      | Some selected \<Rightarrow>
          (case enrichContactProfile parse selected outcome of
             Inl e \<Rightarrow> enrichFailed st
           | Inr enriched \<Rightarrow>
               (let existingNames = insert (c_name enriched) (set (map c_name (contacts st)))
                in case discover freshIds enriched existingNames [] (c_relatedPeople enriched) of
                     Inl e \<Rightarrow> enrichFailed st
                   | Inr newAutoContacts \<Rightarrow>
                       st \<lparr> contacts :=
                              map (\<lambda>c. if c_id c = c_id enriched then enriched else c)
                                (contacts st)
                                @ newAutoContacts,
                            searchResults := None,
                            manualImages := [],
                            manualText := [],
                            isSearching := False,
                            alerts := alerts st @
                              [if 0 < length newAutoContacts
                               then EnrichedWithDiscoveries (length newAutoContacts)
                               else ProfileUpdated] \<rparr>)))"

subsection \<open>handleAddRelation\<close>

text \<open>
  The update of one contact \<open>c\<close> inside \<^verbatim>\<open>setContacts(prev => prev.map(...))\<close>; \<open>label\<close> is
  \<^verbatim>\<open>relType\<close>, stored as typed.
\<close>

definition addRelationTo :: "Contact \<Rightarrow> Contact \<Rightarrow> string \<Rightarrow> string \<Rightarrow> Contact \<Rightarrow> Contact" where
  "addRelationTo selected targetContact targetId label c =
     (let newRelationForSource = \<lparr> r_name = c_name targetContact, r_relationship = Some label \<rparr>;
          newRelationForTarget = \<lparr> r_name = c_name selected, r_relationship = Some label \<rparr>
      in if c_id c = c_id selected
         then (if list_ex (\<lambda>p. r_name p = c_name targetContact) (c_relatedPeople c) then c
               else c \<lparr> c_relatedPeople := c_relatedPeople c @ [newRelationForSource] \<rparr>)
         else if c_id c = targetId
         then (if list_ex (\<lambda>p. r_name p = c_name selected) (c_relatedPeople c) then c
               else c \<lparr> c_relatedPeople := c_relatedPeople c @ [newRelationForTarget] \<rparr>)
         else c)"

definition handleAddRelation :: "AppState \<Rightarrow> AppState" where
  "handleAddRelation st =
     (case selectedContact st of
        None \<Rightarrow> st
      | Some selected \<Rightarrow>
          (if relTargetId st = [] \<or> trim (relType st) = [] then st
           else case find (\<lambda>c. c_id c = relTargetId st) (contacts st) of
                  None \<Rightarrow> st
                | Some targetContact \<Rightarrow>
                    st \<lparr> contacts :=
                           map (addRelationTo selected targetContact (relTargetId st) (relType st))
                             (contacts st),
                         showRelModal := False,
                         relTargetId := [],
                         relType := [] \<rparr>))"

section \<open>The specification's wording of the merge and of the source list\<close>

text \<open>
  The next definitions are not taken from the code. They write down what the
  specification says of the merged tags, related people and notes and of the list of
  sources, to be compared with what the code computes.
\<close>

definition spec_unionTags :: "Contact list \<Rightarrow> string set" where
  "spec_unionTags profiles = set (concat (map c_tags profiles))"

definition spec_namesUnique :: "RelatedPerson list \<Rightarrow> bool" where
  "spec_namesUnique people = distinct (map r_name people)"

definition spec_joinedNotes :: "Contact list \<Rightarrow> string" where
  "spec_joinedNotes profiles =
     join notesSeparator (filter (\<lambda>n. n \<noteq> []) (map c_notes profiles))"

text \<open>
  Deduplication by a key that keeps the first occurrence of each key; \<open>seen\<close> is the set
  of the keys met so far.
\<close>

fun keepFirstBy :: "('a \<Rightarrow> 'k) \<Rightarrow> 'k set \<Rightarrow> 'a list \<Rightarrow> 'a list" where
  "keepFirstBy key seen [] = []"
| "keepFirstBy key seen (item # items) =
     (if key item \<in> seen then keepFirstBy key seen items
      else item # keepFirstBy key (insert (key item) seen) items)"

definition spec_uniqueSources :: "SearchResult list \<Rightarrow> SearchResult list" where
  "spec_uniqueSources sources = keepFirstBy s_url {} sources"

section \<open>Sample data\<close>

text \<open>
  Two profiles as in the merge scenario of the specification, with tags \<open>x\<close> and
  \<open>x, y\<close>; the first has a note and a related person that is not a contact, the second
  has no note.
\<close>

definition profileA :: Contact where
  "profileA =
     \<lparr> c_id = ''a'', c_name = ''Li'', c_title = ''Engineer'', c_company = ''Acme'',
       c_email = None, c_phone = None, c_location = None, c_tags = [''x''],
       c_summary = ''Works on compilers'', c_notes = ''Met in 2023'',
       c_relatedPeople = [\<lparr> r_name = ''Zhang'', r_relationship = Some ''Advisor'' \<rparr>],
       c_avatarUrl = None \<rparr>"

definition profileB :: Contact where
  "profileB =
     \<lparr> c_id = ''b'', c_name = ''Wang'', c_title = ''Director'', c_company = ''Acme'',
       c_email = None, c_phone = None, c_location = None, c_tags = [''x'', ''y''],
       c_summary = ''Leads the platform team'', c_notes = [],
       c_relatedPeople = [],
       c_avatarUrl = None \<rparr>"

text \<open>
  An answer of the oracle as \<^verbatim>\<open>JSON.parse\<close> returns it: it carries an id of its own, one tag
  and two related people of the same name.
\<close>

definition oracleAnswer :: PartialContact where
  "oracleAnswer =
     \<lparr> p_id = Some ''from-oracle'', p_name = Some ''Li'', p_title = None, p_company = None,
       p_email = None, p_phone = None, p_location = None, p_tags = Some [''z''],
       p_summary = None, p_notes = None,
       p_relatedPeople = Some [\<lparr> r_name = ''Chen'', r_relationship = Some ''Boss'' \<rparr>,
                               \<lparr> r_name = ''Chen'', r_relationship = Some ''Friend'' \<rparr>],
       p_avatarUrl = None \<rparr>"

text \<open>
  The text of that answer, and the same text inside a code fence, as the oracle may send
  it when the search tool is on.
\<close>

definition answerText :: string where
  \<open>answerText = ''{"id":"from-oracle","name":"Li","tags":["z"],"relatedPeople":[{"name":"Chen","relationship":"Boss"},{"name":"Chen","relationship":"Friend"}]}''\<close>


definition emptyObject :: PartialContact where
  "emptyObject =
     \<lparr> p_id = None, p_name = None, p_title = None, p_company = None, p_email = None,
       p_phone = None, p_location = None, p_tags = None, p_summary = None, p_notes = None,
       p_relatedPeople = None, p_avatarUrl = None \<rparr>"

text \<open>
  A second answer: two related people of the name \<open>Chen\<close>, the first without a
  relationship, which the response schema allows.
\<close>

definition unlabelledAnswer :: PartialContact where
  "unlabelledAnswer =
     emptyObject \<lparr> p_relatedPeople :=
       Some [\<lparr> r_name = ''Chen'', r_relationship = None \<rparr>,
             \<lparr> r_name = ''Chen'', r_relationship = Some ''Boss'' \<rparr>] \<rparr>"

definition unlabelledAnswerText :: string where
  \<open>unlabelledAnswerText = ''{"relatedPeople":[{"name":"Chen"},{"name":"Chen","relationship":"Boss"}]}''\<close>

text \<open>
  \<^verbatim>\<open>JSON.parse\<close> on the texts of the examples: the texts of the two answers, the empty
  object, and a text that is not JSON (any other text, such as \<open>not json\<close>, is given
  \<open>None\<close>).
\<close>

definition sampleParse :: json_parse where
  "sampleParse jsonStr =
     (if jsonStr = answerText then Some oracleAnswer
      else if jsonStr = unlabelledAnswerText then Some unlabelledAnswer
      else if jsonStr = ''{}'' then Some emptyObject
      else None)"

definition sampleState :: AppState where
  "sampleState =
     \<lparr> contacts = [profileA, profileB], selectedContactId = Some ''a'', enrichMode = MANUAL,
       isSearching = False, searchResults = None, ignoredSourceUrls = {},
       manualText = ''see resume'', manualImages = [], showRelModal = True,
       relTargetId = ''b'', relType = ''Friend'', alerts = [] \<rparr>"

text \<open>
  A state whose only contact, the selected one, has a related person without a
  relationship, as a contact saved from an extraction can have.
\<close>

definition profileC :: Contact where
  "profileC =
     \<lparr> c_id = ''c'', c_name = ''Zhao'', c_title = [], c_company = [],
       c_email = None, c_phone = None, c_location = None, c_tags = [],
       c_summary = ''Met at a fair'', c_notes = [],
       c_relatedPeople = [\<lparr> r_name = ''Sun'', r_relationship = None \<rparr>],
       c_avatarUrl = None \<rparr>"

definition unlabelledState :: AppState where
  "unlabelledState = sampleState \<lparr> contacts := [profileC], selectedContactId := Some ''c'' \<rparr>"

text \<open>
  A search response with two grounding chunks of the same uri and different titles, and
  a stand-in for \<^verbatim>\<open>new URL(uri).hostname\<close> that knows the one host of the example.
\<close>

definition sampleHostname :: "string \<Rightarrow> string option" where
  "sampleHostname u =
     (if startsWith u ''https://example.com/'' then Some ''example.com'' else None)"

definition sampleResponse :: SearchResponse where
  "sampleResponse =
     \<lparr> resp_text = Some ''Five facts'',
       groundingChunks = Some
         [\<lparr> web = Some \<lparr> uri = Some ''https://example.com/li'', w_title = Some ''First title'' \<rparr> \<rparr>,
          \<lparr> web = Some \<lparr> uri = Some ''https://example.com/li'', w_title = Some ''Second title'' \<rparr> \<rparr>] \<rparr>"

definition sampleIds :: "nat \<Rightarrow> string" where
  "sampleIds k = replicate (Suc k) CHR ''7''"

section \<open>Facts about the sample data\<close>

lemma sample_texts_differ:
  "answerText \<noteq> unlabelledAnswerText" "answerText \<noteq> ''{}''" "answerText \<noteq> ''not json''"
  "unlabelledAnswerText \<noteq> ''{}''" "unlabelledAnswerText \<noteq> ''not json''"
  "answerText \<noteq> []" "unlabelledAnswerText \<noteq> []"
  by (simp_all add: answerText_def unlabelledAnswerText_def)

lemma sample_parse_answer:
  "sampleParse (textOrEmptyObject (Some answerText)) = Some oracleAnswer"
  by (simp add: sampleParse_def textOrEmptyObject_def sample_texts_differ)

lemma sample_parse_not_json:
  "sampleParse (textOrEmptyObject (Some ''not json'')) = None"
  using sample_texts_differ by (auto simp: sampleParse_def textOrEmptyObject_def)





lemma sample_strip_not_json:
  "stripCodeFences (textOrEmptyObject (Some ''not json'')) = ''not json''"
  by (simp add: textOrEmptyObject_def stripCodeFences_def
      removeAll_def trim_def whiteSpace_def startsWith_def)

lemma sample_parse_not_json_stripped:
  "sampleParse (stripCodeFences (textOrEmptyObject (Some ''not json''))) = None"
  using sample_texts_differ by (auto simp: sample_strip_not_json sampleParse_def)

lemma asPartial_inject: "asPartial c = asPartial d \<longleftrightarrow> c = d"
  by (cases c, cases d) (auto simp: asPartial_def)

section \<open>Properties of the merge\<close>

lemma merge_two_or_more:
  assumes "2 \<le> length profiles"
  obtains c d cs where "profiles = c # d # cs"
proof (cases profiles)
  case Nil
  with assms show ?thesis by simp
next
  case (Cons c rest)
  with assms obtain d cs where "rest = d # cs" by (cases rest) auto
  with Cons that show ?thesis by simp
qed

text \<open>
  C1, as the code has it. In a merge of two or more profiles, an answer of the oracle
  that does not parse makes the merge return the first profile unchanged; an oracle that
  throws makes the merge itself fail with that error, since the call is outside the
  \<^verbatim>\<open>try\<close> block.
\<close>

theorem merge_fails_closed_on_parse_only:
  assumes "2 \<le> length profiles"
  shows "(parse (textOrEmptyObject text) = None \<longrightarrow>
            mergeContactsSmartly parse profiles (Responds text) = Inr (asPartial (profiles ! 0)))
         \<and> mergeContactsSmartly parse profiles OracleThrows = Inl OracleCallError"
proof -
  from assms obtain c d cs where "profiles = c # d # cs" by (rule merge_two_or_more)
  then show ?thesis by simp
qed

theorem merge_fails_closed_on_parse_only_witness:
  "(2::nat) \<le> length [profileA, profileB]
   \<and> sampleParse (textOrEmptyObject (Some ''not json'')) = None
   \<and> mergeContactsSmartly sampleParse [profileA, profileB] (Responds (Some ''not json''))
       = Inr (asPartial profileA)
   \<and> mergeContactsSmartly sampleParse [profileA, profileB] OracleThrows = Inl OracleCallError"
  using merge_fails_closed_on_parse_only [of "[profileA, profileB]" sampleParse "Some ''not json''"]
  by (simp add: sample_parse_not_json)

text \<open>
  C1, as the specification words it, fails: with an oracle that throws, the merge of the
  two sample profiles is an error and not the first profile.
\<close>

theorem merge_oracle_throws_counterexample:
  "mergeContactsSmartly sampleParse [profileA, profileB] OracleThrows = Inl OracleCallError
   \<and> mergeContactsSmartly sampleParse [profileA, profileB] OracleThrows
       \<noteq> Inr (asPartial profileA)"
  by simp

text \<open>
  C3, as the code has it. The tags of a merge of two or more profiles are the tags of
  the parsed answer of the oracle, absent when the answer has none; when the answer does
  not parse they are the tags of the first profile. The code computes no union.
\<close>

theorem merge_tags_from_oracle:
  assumes "2 \<le> length profiles"
  shows "\<exists>r. mergeContactsSmartly parse profiles (Responds text) = Inr r
           \<and> p_tags r = (case parse (textOrEmptyObject text) of
                           Some mergedData \<Rightarrow> p_tags mergedData
                         | None \<Rightarrow> Some (c_tags (profiles ! 0)))"
proof -
  from assms obtain c d cs where "profiles = c # d # cs" by (rule merge_two_or_more)
  then show ?thesis
    by (simp add: mergedObject_def asPartial_def split: option.split)
qed

theorem merge_tags_from_oracle_witness:
  "(2::nat) \<le> length [profileA, profileB]
   \<and> (\<exists>r. mergeContactsSmartly sampleParse [profileA, profileB] (Responds (Some answerText)) = Inr r
          \<and> p_tags r = Some [''z''])"
  using merge_tags_from_oracle [of "[profileA, profileB]" sampleParse "Some answerText"]
  by (simp add: sample_parse_answer oracleAnswer_def)

text \<open>
  C3, as the specification words it, fails on its own scenario: the profiles have the
  tags \<open>x\<close> and \<open>x, y\<close>, the oracle answers with the tag \<open>z\<close>, and the merged tags are
  \<open>z\<close>, not the union.
\<close>

theorem merge_tags_counterexample:
  "mergeContactsSmartly sampleParse [profileA, profileB] (Responds (Some answerText))
     = Inr (mergedObject oracleAnswer ''a'' [profileA, profileB])
   \<and> p_tags (mergedObject oracleAnswer ''a'' [profileA, profileB]) = Some [''z'']
   \<and> set [''z''] \<noteq> spec_unionTags [profileA, profileB]"
  by (simp add: sample_parse_answer mergedObject_def oracleAnswer_def
      spec_unionTags_def profileA_def profileB_def)

text \<open>
  C6. Whenever the oracle answers, a merge of two or more profiles returns an object, and
  the id of that object is the id of the first profile of the input, whatever id the
  parsed answer carries and whether or not the answer parses. (When the oracle throws,
  no object is returned at all.)
\<close>

theorem merge_id_is_survivor:
  assumes "2 \<le> length profiles"
  shows "\<exists>r. mergeContactsSmartly parse profiles (Responds text) = Inr r
           \<and> p_id r = Some (c_id (profiles ! 0))"
proof -
  from assms obtain c d cs where "profiles = c # d # cs" by (rule merge_two_or_more)
  then show ?thesis
    by (simp add: mergedObject_def asPartial_def split: option.split)
qed

theorem merge_id_is_survivor_witness:
  "(2::nat) \<le> length [profileA, profileB]
   \<and> (\<exists>r. mergeContactsSmartly sampleParse [profileA, profileB] (Responds (Some answerText)) = Inr r
          \<and> p_id r = Some ''a'')"
  using merge_id_is_survivor [of "[profileA, profileB]" sampleParse "Some answerText"]
  by (simp add: profileA_def)

lemma length_join:
  "length (join sep xs) = sum_list (map length xs) + length sep * (length xs - 1)"
  by (induction sep xs rule: join.induct) simp_all

text \<open>
  C5, as the code has it. When the answer of the oracle parses, the notes of a merge of
  two or more profiles are the notes of all the profiles, in input order, joined with a
  blank line; every profile contributes a segment, an empty one too, so that \<open>n\<close>
  profiles always give \<open>n - 1\<close> separators. When the answer does not parse, the notes are
  those of the first profile.
\<close>

theorem merge_notes_joined:
  assumes "2 \<le> length profiles"
  shows "(\<exists>r. mergeContactsSmartly parse profiles (Responds text) = Inr r
            \<and> p_notes r = (case parse (textOrEmptyObject text) of
                             Some mergedData \<Rightarrow> Some (join notesSeparator (map c_notes profiles))
                           | None \<Rightarrow> Some (c_notes (profiles ! 0))))
         \<and> length (join notesSeparator (map c_notes profiles))
             = sum_list (map (length \<circ> c_notes) profiles) + 2 * (length profiles - 1)"
proof -
  from assms obtain c d cs where "profiles = c # d # cs" by (rule merge_two_or_more)
  then have "\<exists>r. mergeContactsSmartly parse profiles (Responds text) = Inr r
            \<and> p_notes r = (case parse (textOrEmptyObject text) of
                             Some mergedData \<Rightarrow> Some (join notesSeparator (map c_notes profiles))
                           | None \<Rightarrow> Some (c_notes (profiles ! 0)))"
    by (simp add: mergedObject_def asPartial_def split: option.split)
  moreover have "length (join notesSeparator (map c_notes profiles))
             = sum_list (map (length \<circ> c_notes) profiles) + 2 * (length profiles - 1)"
    by (simp add: length_join notesSeparator_def comp_def)
  ultimately show ?thesis by blast
qed

theorem merge_notes_joined_witness:
  "(2::nat) \<le> length [profileA, profileB]
   \<and> (\<exists>r. mergeContactsSmartly sampleParse [profileA, profileB] (Responds (Some answerText)) = Inr r
          \<and> p_notes r = Some (''Met in 2023'' @ notesSeparator))"
  using merge_notes_joined [of "[profileA, profileB]" sampleParse "Some answerText"]
  by (simp add: sample_parse_answer profileA_def profileB_def)

text \<open>
  C5, as the specification words it, fails: the second sample profile has no note, and
  the merged notes end with the separator, where the specification's notes do not.
\<close>

theorem merge_notes_counterexample:
  "mergeContactsSmartly sampleParse [profileA, profileB] (Responds (Some answerText))
     = Inr (mergedObject oracleAnswer ''a'' [profileA, profileB])
   \<and> p_notes (mergedObject oracleAnswer ''a'' [profileA, profileB])
       = Some (''Met in 2023'' @ notesSeparator)
   \<and> spec_joinedNotes [profileA, profileB] = ''Met in 2023''
   \<and> ''Met in 2023'' @ notesSeparator \<noteq> spec_joinedNotes [profileA, profileB]"
  by (simp add: sample_parse_answer mergedObject_def
      spec_joinedNotes_def profileA_def profileB_def notesSeparator_def)

section \<open>Properties of the relation handler\<close>

lemma addRelationTo_names_unique:
  assumes "spec_namesUnique (c_relatedPeople c)"
  shows "spec_namesUnique (c_relatedPeople (addRelationTo selected targetContact targetId label c))"
  using assms
  by (auto simp: addRelationTo_def spec_namesUnique_def Let_def list_ex_iff)

lemma handleAddRelation_contacts:
  "contacts (handleAddRelation st) = contacts st
   \<or> (\<exists>selected targetContact.
         contacts (handleAddRelation st)
           = map (addRelationTo selected targetContact (relTargetId st) (relType st)) (contacts st))"
  by (auto simp: handleAddRelation_def split: option.split)

text \<open>
  C4, as the code has it. The related people of a merge of two or more profiles are
  those of the parsed answer of the oracle, as they come (those of the first profile when
  the answer does not parse): the code removes no duplicate. Adding a relation never
  introduces a duplicate name: every contact whose related people had pairwise different
  names before the handler has so after it.
\<close>

theorem relatedPeople_names_merge_and_add:
  "(2 \<le> length profiles \<longrightarrow>
      (\<exists>r. mergeContactsSmartly parse profiles (Responds text) = Inr r
          \<and> p_relatedPeople r = (case parse (textOrEmptyObject text) of
                                   Some mergedData \<Rightarrow> p_relatedPeople mergedData
                                 | None \<Rightarrow> Some (c_relatedPeople (profiles ! 0)))))
   \<and> length (contacts (handleAddRelation st)) = length (contacts st)
   \<and> (\<forall>i < length (contacts st).
         spec_namesUnique (c_relatedPeople (contacts st ! i)) \<longrightarrow>
         spec_namesUnique (c_relatedPeople (contacts (handleAddRelation st) ! i)))"
proof (intro conjI impI allI)
  assume "2 \<le> length profiles"
  then obtain c d cs where "profiles = c # d # cs" by (rule merge_two_or_more)
  then show "\<exists>r. mergeContactsSmartly parse profiles (Responds text) = Inr r
          \<and> p_relatedPeople r = (case parse (textOrEmptyObject text) of
                                   Some mergedData \<Rightarrow> p_relatedPeople mergedData
                                 | None \<Rightarrow> Some (c_relatedPeople (profiles ! 0)))"
    by (simp add: mergedObject_def asPartial_def split: option.split)
next
  show "length (contacts (handleAddRelation st)) = length (contacts st)"
    using handleAddRelation_contacts [of st] by auto
next
  fix i
  assume "i < length (contacts st)"
    and "spec_namesUnique (c_relatedPeople (contacts st ! i))"
  then show "spec_namesUnique (c_relatedPeople (contacts (handleAddRelation st) ! i))"
    using handleAddRelation_contacts [of st] by (auto simp: addRelationTo_names_unique)
qed

theorem relatedPeople_names_merge_and_add_witness:
  "(2::nat) \<le> length [profileA, profileB]
   \<and> (\<exists>r. mergeContactsSmartly sampleParse [profileA, profileB] (Responds (Some answerText)) = Inr r
          \<and> p_relatedPeople r = p_relatedPeople oracleAnswer)
   \<and> (0::nat) < length (contacts sampleState)
   \<and> spec_namesUnique (c_relatedPeople (contacts sampleState ! 0))
   \<and> spec_namesUnique (c_relatedPeople (contacts (handleAddRelation sampleState) ! 0))"
  using relatedPeople_names_merge_and_add
    [of "[profileA, profileB]" sampleParse "Some answerText" sampleState]
  by (simp add: sample_parse_answer sampleState_def profileA_def
      spec_namesUnique_def)

text \<open>
  C4, as the specification words it, fails: the oracle answers with two related people
  of the name \<open>Chen\<close>, and the merge returns both.
\<close>

theorem merge_relatedPeople_counterexample:
  "mergeContactsSmartly sampleParse [profileA, profileB] (Responds (Some answerText))
     = Inr (mergedObject oracleAnswer ''a'' [profileA, profileB])
   \<and> p_relatedPeople (mergedObject oracleAnswer ''a'' [profileA, profileB])
       = Some [\<lparr> r_name = ''Chen'', r_relationship = Some ''Boss'' \<rparr>,
               \<lparr> r_name = ''Chen'', r_relationship = Some ''Friend'' \<rparr>]
   \<and> \<not> spec_namesUnique [\<lparr> r_name = ''Chen'', r_relationship = Some ''Boss'' \<rparr>,
                          \<lparr> r_name = ''Chen'', r_relationship = Some ''Friend'' \<rparr>]"
  by (simp add: sample_parse_answer mergedObject_def oracleAnswer_def
      spec_namesUnique_def profileA_def)

lemma handleAddRelation_guarded:
  assumes "selectedContact st = Some selected"
    and "find (\<lambda>c. c_id c = relTargetId st) (contacts st) = Some targetContact"
    and "relTargetId st \<noteq> []"
    and "trim (relType st) \<noteq> []"
  shows "handleAddRelation st =
           st \<lparr> contacts :=
                  map (addRelationTo selected targetContact (relTargetId st) (relType st))
                    (contacts st),
                showRelModal := False, relTargetId := [], relType := [] \<rparr>"
  using assms by (simp add: handleAddRelation_def)

text \<open>
  C10. When the handler passes its guard (a contact is selected, the target id is not
  empty and is the id of a contact, the label is not blank), the list of contacts keeps
  its length, and at every position the contact changes at most in its related people:
  a contact of the selected id gets an entry naming the target with the label, unless it
  has an entry of that name; a contact of the target id gets an entry naming the
  selected contact with the same label, unless it has an entry of that name; every other
  contact is left as it is.
\<close>

theorem add_relation_frame:
  assumes "selectedContact st = Some selected"
    and "find (\<lambda>c. c_id c = relTargetId st) (contacts st) = Some targetContact"
    and "relTargetId st \<noteq> []"
    and "trim (relType st) \<noteq> []"
    and "i < length (contacts st)"
    and "c = contacts st ! i"
    and "c' = contacts (handleAddRelation st) ! i"
  shows "selected \<in> set (contacts st) \<and> targetContact \<in> set (contacts st)
     \<and> length (contacts (handleAddRelation st)) = length (contacts st)
     \<and> c' = c \<lparr> c_relatedPeople := c_relatedPeople c' \<rparr>
     \<and> (c_id c = c_id selected \<longrightarrow>
          c_relatedPeople c' =
            (if \<exists>p \<in> set (c_relatedPeople c). r_name p = c_name targetContact
             then c_relatedPeople c
             else c_relatedPeople c
                    @ [\<lparr> r_name = c_name targetContact, r_relationship = Some (relType st) \<rparr>]))
     \<and> (c_id c \<noteq> c_id selected \<and> c_id c = c_id targetContact \<longrightarrow>
          c_relatedPeople c' =
            (if \<exists>p \<in> set (c_relatedPeople c). r_name p = c_name selected
             then c_relatedPeople c
             else c_relatedPeople c
                    @ [\<lparr> r_name = c_name selected, r_relationship = Some (relType st) \<rparr>]))
     \<and> (c_id c \<noteq> c_id selected \<and> c_id c \<noteq> c_id targetContact \<longrightarrow> c' = c)"
proof -
  have tid: "c_id targetContact = relTargetId st"
    using assms(2) by (auto simp: find_Some_iff)
  have mem: "selected \<in> set (contacts st) \<and> targetContact \<in> set (contacts st)"
    using assms(1,2)
    by (auto simp: selectedContact_def find_Some_iff split: option.splits)
  have "c' = addRelationTo selected targetContact (relTargetId st) (relType st) c"
    using assms by (simp add: handleAddRelation_guarded)
  then show ?thesis
    using assms(1-4) tid mem
    by (auto simp: handleAddRelation_guarded addRelationTo_def Let_def list_ex_iff)
qed

theorem add_relation_frame_witness:
  "selectedContact sampleState = Some profileA
   \<and> find (\<lambda>c. c_id c = relTargetId sampleState) (contacts sampleState) = Some profileB
   \<and> relTargetId sampleState \<noteq> [] \<and> trim (relType sampleState) \<noteq> []
   \<and> (1::nat) < length (contacts sampleState)
   \<and> length (contacts (handleAddRelation sampleState)) = length (contacts sampleState)
   \<and> c_relatedPeople (contacts (handleAddRelation sampleState) ! 1)
       = [\<lparr> r_name = ''Li'', r_relationship = Some ''Friend'' \<rparr>]"
proof -
  have h1: "selectedContact sampleState = Some profileA"
    by (simp add: selectedContact_def sampleState_def profileA_def)
  have h2: "find (\<lambda>c. c_id c = relTargetId sampleState) (contacts sampleState) = Some profileB"
    by (simp add: sampleState_def profileA_def profileB_def)
  have h3: "relTargetId sampleState \<noteq> []" by (simp add: sampleState_def)
  have h4: "trim (relType sampleState) \<noteq> []"
    by (simp add: sampleState_def trim_def whiteSpace_def startsWith_def)
  have h5: "1 < length (contacts sampleState)" by (simp add: sampleState_def)
  from add_relation_frame [OF h1 h2 h3 h4 h5 refl refl] h1 h2 h3 h4 h5
  show ?thesis
    by (simp add: sampleState_def profileA_def profileB_def)
qed

section \<open>Properties of the enrichment handler\<close>






lemma handleEnrich_loop_throws:
  assumes "selectedContact st = Some selected"
    and "enrichContactProfile parse selected outcome = Inr enriched"
    and "discover freshIds enriched (insert (c_name enriched) (set (map c_name (contacts st))))
           [] (c_relatedPeople enriched) = Inl e"
  shows "handleEnrich freshIds parse outcome st = enrichFailed st"
  using assms by (simp add: handleEnrich_def Let_def)














text \<open>
  The other branch at a concrete state: the selected contact mentions \<open>Sun\<close> without a
  relationship, the answer does not parse, and the handler ends in its failure branch.
\<close>

lemma enrich_parse_failure_unlabelled_example:
  "sampleParse (stripCodeFences (textOrEmptyObject (Some ''not json''))) = None
   \<and> selectedContact unlabelledState = Some profileC
   \<and> discover sampleIds profileC (insert (c_name profileC) (set (map c_name (contacts unlabelledState))))
        [] (c_relatedPeople profileC) = Inl TypeError
   \<and> contacts (handleEnrich sampleIds sampleParse (Responds (Some ''not json'')) unlabelledState)
       = contacts unlabelledState
   \<and> alerts (handleEnrich sampleIds sampleParse (Responds (Some ''not json'')) unlabelledState)
       = [UpdateFailed]"
proof -
  have s: "selectedContact unlabelledState = Some profileC"
    by (simp add: selectedContact_def unlabelledState_def sampleState_def profileC_def)
  have e: "enrichContactProfile sampleParse profileC (Responds (Some ''not json''))
      = Inr profileC"
    by (simp add: enrichContactProfile_def sample_parse_not_json_stripped)
  have d: "discover sampleIds profileC
      (insert (c_name profileC) (set (map c_name (contacts unlabelledState)))) []
      (c_relatedPeople profileC) = Inl TypeError"
    by (simp add: unlabelledState_def sampleState_def profileC_def)
  have "handleEnrich sampleIds sampleParse (Responds (Some ''not json'')) unlabelledState
      = enrichFailed unlabelledState"
    using d by (rule handleEnrich_loop_throws [OF s e])
  with s d sample_parse_not_json_stripped show ?thesis
    by (simp add: enrichFailed_def unlabelledState_def sampleState_def)
qed

section \<open>Properties of the source list of a search\<close>

lemma foldl_update_keys:
  "map fst (foldl (\<lambda>m (k, v). AList.update k v m) acc entries)
     = map fst acc @ map fst (keepFirstBy fst (fst ` set acc) entries)"
proof (induction entries arbitrary: acc)
  case Nil
  then show ?case by simp
next
  case (Cons e entries)
  obtain k v where e: "e = (k, v)" by (cases e)
  show ?case
  proof (cases "k \<in> fst ` set acc")
    case True
    then have "fst ` set (AList.update k v acc) = fst ` set acc"
      by (auto simp: AList.dom_update)
    with True show ?thesis
      by (simp add: e Cons.IH AList.update_keys)
  next
    case False
    have "fst ` set (AList.update k v acc) = insert k (fst ` set acc)"
      by (simp add: AList.dom_update)
    with False show ?thesis
      by (simp add: e Cons.IH AList.update_keys)
  qed
qed

lemma foldl_update_map_of:
  "map_of (foldl (\<lambda>m (k, v). AList.update k v m) acc entries)
     = map_of acc ++ map_of (rev entries)"
proof (induction entries arbitrary: acc)
  case Nil
  then show ?case by simp
next
  case (Cons e entries)
  obtain k v where e: "e = (k, v)" by (cases e)
  have "map_of (AList.update k v acc) ++ map_of (rev entries)
      = map_of acc ++ (map_of (rev entries) ++ [k \<mapsto> v] ++ map_of (rev entries))"
    by (simp add: AList.update_conv' fun_eq_iff map_add_def split: option.split)
  then show ?case
    by (simp add: e Cons.IH fun_eq_iff map_add_def AList.update_conv' split: option.split)
qed

lemma foldl_update_distinct:
  "distinct (map fst acc) \<Longrightarrow>
   distinct (map fst (foldl (\<lambda>m (k, v). AList.update k v m) acc entries))"
  by (induction entries arbitrary: acc) (auto simp: AList.distinct_update)

lemma newMap_keys: "map fst (newMap entries) = map fst (keepFirstBy fst {} entries)"
  by (simp add: newMap_def foldl_update_keys)

lemma newMap_map_of: "map_of (newMap entries) = map_of (rev entries)"
  by (simp add: newMap_def foldl_update_map_of)

lemma newMap_distinct: "distinct (map fst (newMap entries))"
  by (simp add: newMap_def foldl_update_distinct)

lemma keepFirstBy_map:
  "map fst (keepFirstBy fst seen (map (\<lambda>x. (key x, x)) xs)) = map key (keepFirstBy key seen xs)"
  by (induction xs arbitrary: seen) simp_all

lemma map_of_rev_keyed_last:
  "map_of (rev (map (\<lambda>x. (key x, x)) xs)) k = Some y
     \<Longrightarrow> y = last (filter (\<lambda>x. key x = k) xs)"
proof (induction xs rule: rev_induct)
  case Nil
  then show ?case by simp
next
  case (snoc x xs)
  then show ?case by (auto split: if_splits)
qed

lemma uniqueSources_urls:
  "map s_url (uniqueSources sources) = map s_url (spec_uniqueSources sources)"
proof -
  let ?es = "map (\<lambda>item. (s_url item, item)) sources"
  have "\<forall>e \<in> set (newMap ?es). fst e = s_url (snd e)"
  proof
    fix e assume "e \<in> set (newMap ?es)"
    then have "(fst e, snd e) \<in> set (newMap ?es)" by simp
    then have "map_of (newMap ?es) (fst e) = Some (snd e)"
      using newMap_distinct [of ?es] by (simp only: map_of_eq_Some_iff)
    then have "map_of (rev ?es) (fst e) = Some (snd e)" by (simp add: newMap_map_of)
    then have "(fst e, snd e) \<in> set (rev ?es)" by (rule map_of_SomeD)
    then show "fst e = s_url (snd e)" by auto
  qed
  then have "map s_url (map snd (newMap ?es)) = map fst (newMap ?es)"
    by simp
  then show ?thesis
    by (simp add: uniqueSources_def spec_uniqueSources_def newMap_keys keepFirstBy_map)
qed

lemma uniqueSources_last:
  assumes "item \<in> set (uniqueSources sources)"
  shows "item = last (filter (\<lambda>y. s_url y = s_url item) sources)"
proof -
  let ?es = "map (\<lambda>item. (s_url item, item)) sources"
  from assms obtain k where e: "(k, item) \<in> set (newMap ?es)"
    by (auto simp: uniqueSources_def)
  then have "map_of (newMap ?es) k = Some item"
    using newMap_distinct [of ?es] by (simp only: map_of_eq_Some_iff)
  then have m: "map_of (rev ?es) k = Some item" by (simp add: newMap_map_of)
  then have "(k, item) \<in> set (rev ?es)" by (rule map_of_SomeD)
  then have "k = s_url item" by auto
  with m show ?thesis by (simp add: map_of_rev_keyed_last)
qed

lemma uniqueSources_distinct: "distinct (map s_url (uniqueSources sources))"
proof -
  let ?es = "map (\<lambda>item. (s_url item, item)) sources"
  have "map s_url (uniqueSources sources) = map fst (newMap ?es)"
    by (simp add: uniqueSources_urls spec_uniqueSources_def newMap_keys keepFirstBy_map)
  then show ?thesis by (simp add: newMap_distinct)
qed

text \<open>
  C9, as the code has it. The list of sources that a search returns is the list gathered
  from the grounding chunks, deduplicated by URL: no URL occurs twice, the URLs are in the
  order of their first occurrence (the order the specification's keep-first deduplication
  gives), and the entry kept for a URL is the last gathered entry of that URL, since a
  later entry of a \<^verbatim>\<open>Map\<close> replaces the value of its key in place.
\<close>

theorem sources_unique_by_url_last_kept:
  assumes "searchPersonInfo hostname (Responds response) = Inr (summary, sources)"
  shows "\<exists>gathered.
           toSearchResults hostname
             (filter hasUri (case groundingChunks response of None \<Rightarrow> [] | Some cs \<Rightarrow> cs))
             = Inr gathered
           \<and> sources = uniqueSources gathered
           \<and> distinct (map s_url sources)
           \<and> map s_url sources = map s_url (spec_uniqueSources gathered)
           \<and> (\<forall>item \<in> set sources.
                 item = last (filter (\<lambda>y. s_url y = s_url item) gathered))"
proof -
  let ?chunks = "filter hasUri (case groundingChunks response of None \<Rightarrow> [] | Some cs \<Rightarrow> cs)"
  from assms obtain gathered
    where g: "toSearchResults hostname ?chunks = Inr gathered"
      and s: "sources = uniqueSources gathered"
    by (auto simp: searchPersonInfo_def Let_def split: sum.splits)
  have "distinct (map s_url sources)"
    unfolding s by (rule uniqueSources_distinct)
  moreover have "map s_url sources = map s_url (spec_uniqueSources gathered)"
    unfolding s by (rule uniqueSources_urls)
  moreover have "\<forall>item \<in> set sources.
                 item = last (filter (\<lambda>y. s_url y = s_url item) gathered)"
    unfolding s by (blast intro: uniqueSources_last)
  ultimately show ?thesis using g s by blast
qed

lemma sample_search:
  "searchPersonInfo sampleHostname (Responds sampleResponse)
     = Inr (''Five facts'',
            [\<lparr> s_title = ''Second title'', s_snippet = ''Click to visit source'',
               s_url = Some ''https://example.com/li'', s_source = ''example.com'' \<rparr>])"
  by (simp add: searchPersonInfo_def sampleResponse_def sampleHostname_def hasUri_def
      chunkUri_def chunkTitle_def startsWith_def uniqueSources_def newMap_def)

theorem sources_unique_by_url_last_kept_witness:
  "searchPersonInfo sampleHostname (Responds sampleResponse)
     = Inr (''Five facts'',
            [\<lparr> s_title = ''Second title'', s_snippet = ''Click to visit source'',
               s_url = Some ''https://example.com/li'', s_source = ''example.com'' \<rparr>])
   \<and> (\<exists>gathered.
         toSearchResults sampleHostname
           (filter hasUri (case groundingChunks sampleResponse of None \<Rightarrow> [] | Some cs \<Rightarrow> cs))
           = Inr gathered
         \<and> [\<lparr> s_title = ''Second title'', s_snippet = ''Click to visit source'',
               s_url = Some ''https://example.com/li'', s_source = ''example.com'' \<rparr>]
             = uniqueSources gathered
         \<and> map s_url (spec_uniqueSources gathered) = [Some ''https://example.com/li''])"
  using sources_unique_by_url_last_kept [OF sample_search] sample_search
  by auto

text \<open>
  C9, as the specification words it, fails: of two grounding chunks with the same uri and
  different titles, the search returns the second, where keeping the first occurrence
  returns the first.
\<close>

theorem sources_keep_first_counterexample:
  "toSearchResults sampleHostname
     (filter hasUri (case groundingChunks sampleResponse of None \<Rightarrow> [] | Some cs \<Rightarrow> cs))
     = Inr [\<lparr> s_title = ''First title'', s_snippet = ''Click to visit source'',
               s_url = Some ''https://example.com/li'', s_source = ''example.com'' \<rparr>,
            \<lparr> s_title = ''Second title'', s_snippet = ''Click to visit source'',
               s_url = Some ''https://example.com/li'', s_source = ''example.com'' \<rparr>]
   \<and> searchPersonInfo sampleHostname (Responds sampleResponse)
     = Inr (''Five facts'',
            [\<lparr> s_title = ''Second title'', s_snippet = ''Click to visit source'',
               s_url = Some ''https://example.com/li'', s_source = ''example.com'' \<rparr>])
   \<and> spec_uniqueSources
         [\<lparr> s_title = ''First title'', s_snippet = ''Click to visit source'',
             s_url = Some ''https://example.com/li'', s_source = ''example.com'' \<rparr>,
          \<lparr> s_title = ''Second title'', s_snippet = ''Click to visit source'',
             s_url = Some ''https://example.com/li'', s_source = ''example.com'' \<rparr>]
       = [\<lparr> s_title = ''First title'', s_snippet = ''Click to visit source'',
             s_url = Some ''https://example.com/li'', s_source = ''example.com'' \<rparr>]
   \<and> searchPersonInfo sampleHostname (Responds sampleResponse)
     \<noteq> Inr (''Five facts'',
          spec_uniqueSources
            [\<lparr> s_title = ''First title'', s_snippet = ''Click to visit source'',
                s_url = Some ''https://example.com/li'', s_source = ''example.com'' \<rparr>,
             \<lparr> s_title = ''Second title'', s_snippet = ''Click to visit source'',
                s_url = Some ''https://example.com/li'', s_source = ''example.com'' \<rparr>])"
  by (simp add: searchPersonInfo_def sampleResponse_def sampleHostname_def hasUri_def
      chunkUri_def chunkTitle_def startsWith_def uniqueSources_def newMap_def
      spec_uniqueSources_def)

section \<open>Properties of the relationship graph\<close>

lemma count_list_concat_map:
  "count_list (concat (map f xs)) y = sum_list (map (\<lambda>x. count_list (f x) y) xs)"
  by (induction xs) simp_all

lemma sum_list_only_one:
  fixes h :: "'a \<Rightarrow> nat"
  assumes "distinct (map g xs)" and "a \<in> set xs"
    and "\<And>x. x \<in> set xs \<Longrightarrow> g x \<noteq> g a \<Longrightarrow> h x = 0"
  shows "sum_list (map h xs) = h a"
  using assms
proof (induction xs)
  case Nil
  then show ?case by simp
next
  case (Cons x xs)
  show ?case
  proof (cases "x = a")
    case True
    have "\<forall>y \<in> set xs. h y = 0"
    proof
      fix y assume y: "y \<in> set xs"
      from Cons.prems(1) True have "g a \<notin> g ` set xs" by simp
      with y have "g y \<noteq> g a" by (metis imageI)
      with y Cons.prems(3) show "h y = 0" by simp
    qed
    then have "sum_list (map h xs) = 0" by simp
    with True show ?thesis by simp
  next
    case False
    with Cons.prems have a: "a \<in> set xs" by simp
    from Cons.prems(1) have "g x \<notin> g ` set xs" by simp
    with a have "g x \<noteq> g a" by (metis imageI)
    then have "h x = 0" using Cons.prems(3) by simp
    moreover have "sum_list (map h xs) = h a"
      using Cons.IH Cons.prems(1,3) a by simp
    ultimately show ?thesis by simp
  qed
qed

lemma explicitLinks_value:
  "l \<in> set (explicitLinks cs source) \<Longrightarrow> l_value l = 2"
  by (auto simp: explicitLinks_def split: option.splits if_splits)

lemma implicitLinks_mem:
  "l \<in> set (implicitLinks cs source) \<longleftrightarrow>
     c_company source \<noteq> []
     \<and> (\<exists>target \<in> set cs. c_id source \<noteq> c_id target \<and> c_company source = c_company target
            \<and> c_id source < c_id target
            \<and> l = \<lparr> l_source = c_id source, l_target = c_id target, l_value = 1,
                     l_type = Some ''Colleague'' \<rparr>)"
  by (auto simp: implicitLinks_def split: if_splits)

lemma graphLinks_inferred_mem:
  "l \<in> set (graphLinks cs) \<and> l_value l = 1 \<longleftrightarrow>
     (\<exists>source \<in> set cs. l \<in> set (implicitLinks cs source))"
  by (auto simp: graphLinks_def implicitLinks_mem dest: explicitLinks_value)

lemma count_implicitLinks:
  assumes "distinct (map c_id cs)" and "b \<in> set cs"
    and "c_id a < c_id b" and "c_company a \<noteq> []" and "c_company a = c_company b"
  shows "count_list (implicitLinks cs a)
           \<lparr> l_source = c_id a, l_target = c_id b, l_value = 1, l_type = Some ''Colleague'' \<rparr> = 1"
proof -
  let ?L = "\<lparr> l_source = c_id a, l_target = c_id b, l_value = 1, l_type = Some ''Colleague'' \<rparr>"
  let ?h = "\<lambda>target. count_list
              (if c_id a \<noteq> c_id target \<and> c_company a = c_company target
               then (if c_id a < c_id target
                     then [\<lparr> l_source = c_id a, l_target = c_id target, l_value = 1,
                             l_type = Some ''Colleague'' \<rparr>]
                     else [])
               else []) ?L"
  have "count_list (implicitLinks cs a) ?L = sum_list (map ?h cs)"
    using assms(4) by (simp add: implicitLinks_def count_list_concat_map)
  also have "\<dots> = ?h b"
    by (rule sum_list_only_one [where g = c_id]) (use assms(1,2) in auto)
  also have "\<dots> = 1"
    using assms(3,5) by simp
  finally show ?thesis .
qed

lemma count_graphLinks_colleague:
  assumes "distinct (map c_id cs)" and "a \<in> set cs" and "b \<in> set cs"
    and "c_id a < c_id b" and "c_company a \<noteq> []" and "c_company a = c_company b"
  shows "count_list (graphLinks cs)
           \<lparr> l_source = c_id a, l_target = c_id b, l_value = 1, l_type = Some ''Colleague'' \<rparr> = 1"
proof -
  let ?L = "\<lparr> l_source = c_id a, l_target = c_id b, l_value = 1, l_type = Some ''Colleague'' \<rparr>"
  let ?h = "\<lambda>source. count_list (explicitLinks cs source @ implicitLinks cs source) ?L"
  have exmem: "?L \<notin> set (explicitLinks cs source)" for source
    using explicitLinks_value [of ?L cs source] by auto
  then have ex: "count_list (explicitLinks cs source) ?L = 0" for source
    by (simp add: count_list_0_iff)
  have "count_list (graphLinks cs) ?L = sum_list (map ?h cs)"
    by (simp add: graphLinks_def count_list_concat_map)
  also have "\<dots> = ?h a"
  proof (rule sum_list_only_one [where g = c_id])
    fix x assume "x \<in> set cs" and "c_id x \<noteq> c_id a"
    then have "?L \<notin> set (implicitLinks cs x)" by (auto simp: implicitLinks_mem)
    then show "?h x = 0" using exmem [of x] by (simp add: count_list_0_iff)
  qed (use assms(1,2) in auto)
  also have "\<dots> = count_list (explicitLinks cs a) ?L + count_list (implicitLinks cs a) ?L"
    by (simp only: count_list_append)
  also have "\<dots> = 1"
    by (simp only: ex count_implicitLinks [OF assms(1,3,4,5,6)] add_0)
  finally show ?thesis .
qed

lemma sum_list_indicator:
  fixes h :: "'a \<Rightarrow> nat"
  assumes "\<And>x. x \<in> set xs \<Longrightarrow> h x = (if P x then 1 else 0)"
  shows "sum_list (map h xs) = length (filter P xs)"
  using assms by (induction xs) simp_all

lemma length_filter_product:
  "length (filter P (List.product xs ys))
     = sum_list (map (\<lambda>x. length (filter (\<lambda>y. P (x, y)) ys)) xs)"
  by (induction xs) (simp_all add: filter_map comp_def)

lemma count_implicitLinks_general:
  assumes "x < y"
  shows "count_list (implicitLinks cs s)
           \<lparr> l_source = x, l_target = y, l_value = 1, l_type = Some ''Colleague'' \<rparr>
         = length (filter (\<lambda>t. c_id s = x \<and> c_id t = y \<and> c_company s \<noteq> []
                               \<and> c_company s = c_company t) cs)"
proof (cases "c_company s = []")
  case True
  then show ?thesis by (simp add: implicitLinks_def)
next
  case False
  let ?L = "\<lparr> l_source = x, l_target = y, l_value = 1, l_type = Some ''Colleague'' \<rparr>"
  let ?h = "\<lambda>target. count_list
              (if c_id s \<noteq> c_id target \<and> c_company s = c_company target
               then (if c_id s < c_id target
                     then [\<lparr> l_source = c_id s, l_target = c_id target, l_value = 1,
                             l_type = Some ''Colleague'' \<rparr>]
                     else [])
               else []) ?L"
  have "count_list (implicitLinks cs s) ?L = sum_list (map ?h cs)"
    using False by (simp add: implicitLinks_def count_list_concat_map)
  also have "\<dots> = length (filter (\<lambda>t. c_id s = x \<and> c_id t = y \<and> c_company s \<noteq> []
                               \<and> c_company s = c_company t) cs)"
    by (rule sum_list_indicator) (use assms False in auto)
  finally show ?thesis .
qed

lemma count_graphLinks_general:
  assumes "x < y"
  shows "count_list (graphLinks cs)
           \<lparr> l_source = x, l_target = y, l_value = 1, l_type = Some ''Colleague'' \<rparr>
         = length (filter (\<lambda>(s, t). c_id s = x \<and> c_id t = y \<and> c_company s \<noteq> []
                                    \<and> c_company s = c_company t)
                     (List.product cs cs))"
proof -
  let ?L = "\<lparr> l_source = x, l_target = y, l_value = 1, l_type = Some ''Colleague'' \<rparr>"
  have exmem: "?L \<notin> set (explicitLinks cs source)" for source
    using explicitLinks_value [of ?L cs source] by auto
  have "count_list (graphLinks cs) ?L
     = sum_list (map (\<lambda>s. count_list (explicitLinks cs s) ?L
                           + count_list (implicitLinks cs s) ?L) cs)"
    by (simp add: graphLinks_def count_list_concat_map)
  also have "\<dots> = sum_list (map (\<lambda>s. count_list (implicitLinks cs s) ?L) cs)"
    using exmem by (simp add: count_list_0_iff)
  also have "\<dots> = sum_list (map (\<lambda>s. length (filter (\<lambda>t. c_id s = x \<and> c_id t = y
                    \<and> c_company s \<noteq> [] \<and> c_company s = c_company t) cs)) cs)"
    by (simp only: count_implicitLinks_general [OF assms])
  also have "\<dots> = length (filter (\<lambda>(s, t). c_id s = x \<and> c_id t = y \<and> c_company s \<noteq> []
                                    \<and> c_company s = c_company t)
                     (List.product cs cs))"
    by (simp add: length_filter_product)
  finally show ?thesis .
qed

lemma inferred_link_shape:
  assumes "l \<in> set (graphLinks cs)" and "l_value l = 1"
  shows "l_type l = Some ''Colleague'' \<and> l_source l < l_target l
     \<and> (\<exists>a \<in> set cs. \<exists>b \<in> set cs.
           c_id a = l_source l \<and> c_id b = l_target l
           \<and> c_company a \<noteq> [] \<and> c_company a = c_company b)"
proof -
  from assms obtain source where s: "source \<in> set cs" and "l \<in> set (implicitLinks cs source)"
    using graphLinks_inferred_mem [of l cs] by blast
  then obtain target where t: "target \<in> set cs"
    and c: "c_company source \<noteq> []" "c_company source = c_company target"
    and lt: "c_id source < c_id target"
    and l: "l = \<lparr> l_source = c_id source, l_target = c_id target, l_value = 1,
                   l_type = Some ''Colleague'' \<rparr>"
    unfolding implicitLinks_mem by blast
  from l have "c_id source = l_source l" and "c_id target = l_target l" by simp_all
  with s t c have "\<exists>a \<in> set cs. \<exists>b \<in> set cs.
           c_id a = l_source l \<and> c_id b = l_target l
           \<and> c_company a \<noteq> [] \<and> c_company a = c_company b"
    by blast
  moreover from l lt have "l_type l = Some ''Colleague''" and "l_source l < l_target l"
    by simp_all
  ultimately show ?thesis by blast
qed

lemma no_backward_link:
  assumes "x < (y::string)"
  shows "count_list (graphLinks cs)
           \<lparr> l_source = y, l_target = x, l_value = 1, l_type = Some ''Colleague'' \<rparr> = 0"
proof -
  let ?L = "\<lparr> l_source = y, l_target = x, l_value = 1, l_type = Some ''Colleague'' \<rparr>"
  have "?L \<notin> set (graphLinks cs)"
  proof
    assume "?L \<in> set (graphLinks cs)"
    then have "l_source ?L < l_target ?L"
      using inferred_link_shape [of ?L cs] by simp
    with assms show False by simp
  qed
  then show ?thesis by (rule count_notin)
qed

text \<open>
  C8. For every list of contacts and ids \<open>x < y\<close>, the links of value 1 and type
  \<open>Colleague\<close> from \<open>x\<close> to \<open>y\<close> are as many as the pairs of a contact of id \<open>x\<close> and a
  contact of id \<open>y\<close> in the list that share a non-empty company: each such pair is
  emitted once. Hence, in a list with pairwise different ids, two contacts of different
  ids that share a non-empty company get exactly one such link: the one from the smaller
  id to the larger id occurs once among the links, the one in the other direction does
  not occur. And in every list of contacts, a link of value 1 has the type \<open>Colleague\<close>,
  goes from a smaller id to a larger id, joins two contacts that share a non-empty
  company, and the link in the other direction is not among the links.
\<close>

theorem colleague_edge_once:
  "(x < y \<longrightarrow>
      count_list (graphLinks cs)
        \<lparr> l_source = x, l_target = y, l_value = 1, l_type = Some ''Colleague'' \<rparr>
        = length (filter (\<lambda>(s, t). c_id s = x \<and> c_id t = y \<and> c_company s \<noteq> []
                                   \<and> c_company s = c_company t)
                    (List.product cs cs)))
   \<and> (distinct (map c_id cs) \<and> a \<in> set cs \<and> b \<in> set cs \<and> c_id a \<noteq> c_id b
      \<and> c_company a \<noteq> [] \<and> c_company a = c_company b \<longrightarrow>
        count_list (graphLinks cs)
          \<lparr> l_source = c_id a, l_target = c_id b, l_value = 1, l_type = Some ''Colleague'' \<rparr>
          = (if c_id a < c_id b then 1 else 0)
      \<and> count_list (graphLinks cs)
          \<lparr> l_source = c_id b, l_target = c_id a, l_value = 1, l_type = Some ''Colleague'' \<rparr>
          = (if c_id b < c_id a then 1 else 0)
      \<and> count_list (graphLinks cs)
          \<lparr> l_source = c_id a, l_target = c_id b, l_value = 1, l_type = Some ''Colleague'' \<rparr>
        + count_list (graphLinks cs)
          \<lparr> l_source = c_id b, l_target = c_id a, l_value = 1, l_type = Some ''Colleague'' \<rparr>
          = 1)
   \<and> (\<forall>l \<in> set (graphLinks cs). l_value l = 1 \<longrightarrow>
         l_type l = Some ''Colleague'' \<and> l_source l < l_target l
         \<and> (\<exists>a \<in> set cs. \<exists>b \<in> set cs.
               c_id a = l_source l \<and> c_id b = l_target l
               \<and> c_company a \<noteq> [] \<and> c_company a = c_company b)
         \<and> \<lparr> l_source = l_target l, l_target = l_source l, l_value = 1, l_type = Some ''Colleague'' \<rparr>
               \<notin> set (graphLinks cs))"
proof (intro conjI impI ballI)
  assume "x < y"
  then show "count_list (graphLinks cs)
        \<lparr> l_source = x, l_target = y, l_value = 1, l_type = Some ''Colleague'' \<rparr>
        = length (filter (\<lambda>(s, t). c_id s = x \<and> c_id t = y \<and> c_company s \<noteq> []
                                   \<and> c_company s = c_company t)
                    (List.product cs cs))"
    by (rule count_graphLinks_general)
next
  fix l
  assume l: "l \<in> set (graphLinks cs)" "l_value l = 1"
  note shape = inferred_link_shape [OF l]
  from shape show "l_type l = Some ''Colleague''" by simp
  from shape show "l_source l < l_target l" by simp
  from shape show "\<exists>a \<in> set cs. \<exists>b \<in> set cs.
               c_id a = l_source l \<and> c_id b = l_target l
               \<and> c_company a \<noteq> [] \<and> c_company a = c_company b" by simp
  from shape have "l_source l < l_target l" by simp
  then show "\<lparr> l_source = l_target l, l_target = l_source l, l_value = 1, l_type = Some ''Colleague'' \<rparr>
               \<notin> set (graphLinks cs)"
    using no_backward_link [of "l_source l" "l_target l" cs] by (metis count_list_0_iff)
next
  assume h: "distinct (map c_id cs) \<and> a \<in> set cs \<and> b \<in> set cs \<and> c_id a \<noteq> c_id b
      \<and> c_company a \<noteq> [] \<and> c_company a = c_company b"
  let ?ab = "\<lparr> l_source = c_id a, l_target = c_id b, l_value = 1, l_type = Some ''Colleague'' \<rparr>"
  let ?ba = "\<lparr> l_source = c_id b, l_target = c_id a, l_value = 1, l_type = Some ''Colleague'' \<rparr>"
  have both: "count_list (graphLinks cs) ?ab = (if c_id a < c_id b then 1 else 0)
      \<and> count_list (graphLinks cs) ?ba = (if c_id b < c_id a then 1 else 0)"
  proof (cases "c_id a < c_id b")
    case True
    then have "count_list (graphLinks cs) ?ab = 1"
      using h count_graphLinks_colleague [of cs a b] by blast
    moreover have "count_list (graphLinks cs) ?ba = 0"
      using True by (rule no_backward_link)
    moreover have "\<not> c_id b < c_id a" using True by simp
    ultimately show ?thesis using True by simp
  next
    case False
    with h have lt: "c_id b < c_id a" by auto
    from h have "c_company b \<noteq> []" and "c_company b = c_company a" by auto
    with lt h have "count_list (graphLinks cs) ?ba = 1"
      using count_graphLinks_colleague [of cs b a] by blast
    moreover have "count_list (graphLinks cs) ?ab = 0"
      using lt by (rule no_backward_link)
    ultimately show ?thesis using False lt by simp
  qed
  from both show "count_list (graphLinks cs) ?ab = (if c_id a < c_id b then 1 else 0)" by blast
  from both show "count_list (graphLinks cs) ?ba = (if c_id b < c_id a then 1 else 0)" by blast
  from h have "c_id a < c_id b \<or> c_id b < c_id a" by auto
  moreover have "\<not> (c_id a < c_id b \<and> c_id b < c_id a)" by auto
  ultimately show "count_list (graphLinks cs) ?ab + count_list (graphLinks cs) ?ba = 1"
    using both by auto
qed

lemma sample_graph:
  "graphLinks [profileA, profileB]
     = [\<lparr> l_source = ''a'', l_target = ''b'', l_value = 1, l_type = Some ''Colleague'' \<rparr>]"
  by (simp add: graphLinks_def explicitLinks_def implicitLinks_def contactMap_def newMap_def
      profileA_def profileB_def)

theorem colleague_edge_once_witness:
  "distinct (map c_id [profileA, profileB])
   \<and> profileA \<in> set [profileA, profileB] \<and> profileB \<in> set [profileA, profileB]
   \<and> c_id profileA \<noteq> c_id profileB
   \<and> c_company profileA \<noteq> [] \<and> c_company profileA = c_company profileB
   \<and> c_id profileA < c_id profileB
   \<and> graphLinks [profileA, profileB]
       = [\<lparr> l_source = ''a'', l_target = ''b'', l_value = 1, l_type = Some ''Colleague'' \<rparr>]
   \<and> count_list (graphLinks [profileA, profileB])
        \<lparr> l_source = c_id profileA, l_target = c_id profileB, l_value = 1,
          l_type = Some ''Colleague'' \<rparr> = 1
   \<and> count_list (graphLinks [profileA, profileB])
        \<lparr> l_source = c_id profileB, l_target = c_id profileA, l_value = 1,
          l_type = Some ''Colleague'' \<rparr> = 0"
proof -
  have h: "distinct (map c_id [profileA, profileB])
     \<and> profileA \<in> set [profileA, profileB] \<and> profileB \<in> set [profileA, profileB]
     \<and> c_id profileA \<noteq> c_id profileB
     \<and> c_company profileA \<noteq> [] \<and> c_company profileA = c_company profileB"
    by (simp add: profileA_def profileB_def)
  have lt: "c_id profileA < c_id profileB" "\<not> c_id profileB < c_id profileA"
    by (simp_all add: profileA_def profileB_def)
  note once = colleague_edge_once [of "c_id profileA" "c_id profileB" "[profileA, profileB]"
      profileA profileB, THEN conjunct2, THEN conjunct1, rule_format, OF h]
  from once lt have "count_list (graphLinks [profileA, profileB])
        \<lparr> l_source = c_id profileA, l_target = c_id profileB, l_value = 1,
          l_type = Some ''Colleague'' \<rparr> = 1"
    and "count_list (graphLinks [profileA, profileB])
        \<lparr> l_source = c_id profileB, l_target = c_id profileA, l_value = 1,
          l_type = Some ''Colleague'' \<rparr> = 0"
    by simp_all
  with h lt sample_graph show ?thesis by blast
qed

end
